theory Spec2Isabelle
  imports Complex_Main
begin

section \<open>Strings and numbers of the script\<close>

text \<open>
  The script \<^verbatim>\<open>static/js/app.js\<close> is the controller of a download page. Its strings
  are modelled as \<^typ>\<open>string\<close>, one \<^typ>\<open>char\<close> per code unit; the integers it handles
  (seconds, minutes, durations) are modelled as \<^typ>\<open>int\<close>. Its other numbers are double
  precision numbers: they are modelled as the \<^typ>\<open>real\<close> numbers they stand for, and every
  operation that rounds is followed by the rounding \<open>fl\<close> defined below.
\<close>

definition is_digit :: "char \<Rightarrow> bool" where
  \<comment> \<open>the class \<^verbatim>\<open>\d\<close> of a regular expression: the ten characters 0 to 9\<close>
  "is_digit c \<longleftrightarrow> c \<in> set ''0123456789''"

definition digit_value :: "char \<Rightarrow> int" where
  "digit_value c = int (of_char c) - 48"

definition time_regex :: "string \<Rightarrow> bool" where
  \<comment> \<open>\<^verbatim>\<open>timeStr.match(/^\d{1,2}:\d{2}$/)\<close>: a run of one or two digits from the start,
      a colon, then exactly two digits up to the end\<close>
  "time_regex t =
     (let ds = takeWhile is_digit t; rest = dropWhile is_digit t
      in (length ds = 1 \<or> length ds = 2) \<and>
         (case rest of
            [] \<Rightarrow> False
          | c # ss \<Rightarrow> c = CHR '':'' \<and> length ss = 2 \<and> list_all is_digit ss))"

fun split_colon :: "string \<Rightarrow> string list" where
  \<comment> \<open>\<^verbatim>\<open>timeStr.split(':')\<close>\<close>
  "split_colon [] = [[]]"
| "split_colon (c # cs) =
     (if c = CHR '':'' then [] # split_colon cs
      else (case split_colon cs of
              [] \<Rightarrow> [[c]]
            | p # ps \<Rightarrow> (c # p) # ps))"

definition Number :: "string \<Rightarrow> int option" where
  \<comment> \<open>\<^verbatim>\<open>Number(s)\<close> on a string of decimal digits (the empty string gives 0); \<open>None\<close>
      stands for every other string, which the pattern test keeps away from this call\<close>
  "Number s =
     (if list_all is_digit s then Some (foldl (\<lambda>acc c. acc * 10 + digit_value c) 0 s)
      else None)"

definition parseTimeToSeconds :: "string \<Rightarrow> int option" where
  \<comment> \<open>\<open>None\<close> is the \<^verbatim>\<open>null\<close> of the script\<close>
  "parseTimeToSeconds timeStr =
     (if timeStr = [] \<or> \<not> time_regex timeStr then None
      else (case map Number (split_colon timeStr) of
              Some minutes # Some seconds # _ \<Rightarrow>
                if seconds \<ge> 60 then None else Some (minutes * 60 + seconds)
            | _ \<Rightarrow> None))"



subsection \<open>Double precision\<close>

definition round_even :: "real \<Rightarrow> int" where
  \<comment> \<open>the nearest integer, a tie going to the even one\<close>
  "round_even x =
     (let f = \<lfloor>x\<rfloor>; d = x - of_int f
      in if d < 1 / 2 then f else if 1 / 2 < d then f + 1 else if even f then f else f + 1)"

fun binade :: "nat \<Rightarrow> int \<Rightarrow> real \<Rightarrow> int" where
  \<comment> \<open>the largest of the exponents \<open>e, e - 1, \<dots>\<close> whose power of two is at most \<open>x\<close>, the
      search ending after \<open>k\<close> steps\<close>
  "binade 0 e x = e"
| "binade (Suc k) e x = (if 2 powi e \<le> x then e else binade k (e - 1) x)"

definition emin :: int where
  "emin = - 1022"

definition emax :: int where
  "emax = 1023"

definition exponent :: "real \<Rightarrow> int" where
  \<comment> \<open>the exponent of a double of this size, between \<open>emin\<close> (also for the subnormal
      numbers) and \<open>emax\<close>\<close>
  "exponent x = binade 2045 1023 \<bar>x\<bar>"

definition ulp :: "real \<Rightarrow> real" where
  \<comment> \<open>the distance between neighbouring doubles of this size: 53 significant bits\<close>
  "ulp x = 2 powi (exponent x - 52)"

definition fl :: "real \<Rightarrow> real" where
  \<comment> \<open>the double that an arithmetic operation returns for the exact result \<open>x\<close>: the nearest
      one, a tie going to the even significand. The script stays far below \<open>2^1024\<close>, from
      where the language returns \<^verbatim>\<open>Infinity\<close>, which is not modelled.\<close>
  "fl x = of_int (round_even (x / ulp x)) * ulp x"

definition is_double :: "real \<Rightarrow> bool" where
  "is_double x \<longleftrightarrow> fl x = x"

subsection \<open>Numbers as text\<close>









definition is_space :: "char \<Rightarrow> bool" where
  \<comment> \<open>the white space and line terminators that \<^verbatim>\<open>trim()\<close> removes, among the code
      units below 256\<close>
  "is_space c \<longleftrightarrow> (of_char c :: nat) \<in> {9, 10, 11, 12, 13, 32, 160}"

definition trim :: "string \<Rightarrow> string" where
  "trim s = rev (dropWhile is_space (rev (dropWhile is_space s)))"

section \<open>Application state\<close>

record video_info =
  duration :: "int option"

record format =
  format_id :: string

text \<open>
  Each click that starts a download creates a timer of its own, whose callback owns the
  variable \<^verbatim>\<open>progress\<close> declared by that click. A timer is \<open>active\<close> from
  \<^verbatim>\<open>setInterval\<close> until \<^verbatim>\<open>clearInterval\<close> is called on it.
\<close>

record timer =
  progress :: real
  active :: bool

text \<open>
  The module-level variables, the values of the input elements, the error dialog, the
  progress bar, and the timers created so far: the handle that \<^verbatim>\<open>setInterval\<close> returns
  is the position of the timer in the list.
\<close>

record app_state =
  currentVideoInfo :: "video_info option"
  selectedFormat :: "format option"
  isTrimmingEnabled :: bool
  videoUrlInput :: string
  startTimeInput :: string
  endTimeInput :: string
  errorMessage :: string
  errorModalHidden :: bool
  downloadBtnDisabled :: bool
  downloadProgressHidden :: bool
  progressFill :: real
  progressText :: string
  progressPercentage :: int
  timers :: "timer list"

definition showError :: "string \<Rightarrow> app_state \<Rightarrow> app_state" where
  "showError message st = st\<lparr>errorMessage := message, errorModalHidden := False\<rparr>"

definition hideError :: "app_state \<Rightarrow> app_state" where
  "hideError st = st\<lparr>errorModalHidden := True\<rparr>"

section \<open>Validation of the trim times\<close>

definition check_duration :: "int \<Rightarrow> int \<Rightarrow> app_state \<Rightarrow> bool \<times> app_state" where
  \<comment> \<open>the last part of \<^verbatim>\<open>validateTrimTimes\<close>: the block under the guard
      \<^verbatim>\<open>currentVideoInfo && currentVideoInfo.duration\<close>, which a missing video, a
      \<^verbatim>\<open>null\<close> duration and the duration 0 all fail, and the final \<^verbatim>\<open>return true\<close>\<close>
  "check_duration startSeconds endSeconds st =
     (case currentVideoInfo st of
        None \<Rightarrow> (True, st)
      | Some info \<Rightarrow>
          (case duration info of
             None \<Rightarrow> (True, st)
           | Some d \<Rightarrow>
               if d = 0 then (True, st)
               else if startSeconds \<ge> d then
                 (False, showError ''Start time cannot be greater than video duration'' st)
               else if endSeconds > d then
                 (False, showError ''End time cannot be greater than video duration'' st)
               else (True, st)))"

definition validateTrimTimes :: "app_state \<Rightarrow> bool \<times> app_state" where
  \<comment> \<open>the value returned and the state left, with the message shown if there is one\<close>
  "validateTrimTimes st =
     (if \<not> isTrimmingEnabled st then (True, st)
      else
        let startSeconds = parseTimeToSeconds (startTimeInput st);
            endSeconds = parseTimeToSeconds (endTimeInput st)
        in case startSeconds of
             None \<Rightarrow> (False, showError ''Invalid start time format. Use MM:SS (e.g., 2:05)'' st)
           | Some s \<Rightarrow>
               (case endSeconds of
                  None \<Rightarrow>
                    (False, showError ''Invalid end time format. Use MM:SS (e.g., 2:35)'' st)
                | Some e \<Rightarrow>
                    if e \<le> s then (False, showError ''End time must be after start time'' st)
                    else check_duration s e st))"

text \<open>
  The five ways the validation fails, by the names the specification gives them, each
  with the message the script shows for it.
\<close>

datatype validation_error =
  BadStart | BadEnd | EndNotAfterStart | StartBeyondMedia | EndBeyondMedia

fun error_text :: "validation_error \<Rightarrow> string" where
  "error_text BadStart = ''Invalid start time format. Use MM:SS (e.g., 2:05)''"
| "error_text BadEnd = ''Invalid end time format. Use MM:SS (e.g., 2:35)''"
| "error_text EndNotAfterStart = ''End time must be after start time''"
| "error_text StartBeyondMedia = ''Start time cannot be greater than video duration''"
| "error_text EndBeyondMedia = ''End time cannot be greater than video duration''"

section \<open>The download run and its progress bar\<close>

definition Math_round :: "real \<Rightarrow> int" where
  "Math_round x = \<lfloor>x + 1 / 2\<rfloor>"

definition updateProgressBar :: "real \<Rightarrow> string \<Rightarrow> app_state \<Rightarrow> app_state" where
  "updateProgressBar percentage text st =
     st\<lparr>progressFill := percentage, progressText := text,
        progressPercentage := Math_round percentage\<rparr>"

definition showDownloadProgress :: "app_state \<Rightarrow> app_state" where
  "showDownloadProgress st =
     updateProgressBar 0 ''Preparing download...''
       (st\<lparr>downloadBtnDisabled := True, downloadProgressHidden := False\<rparr>)"

definition hideDownloadProgress :: "app_state \<Rightarrow> app_state" where
  "hideDownloadProgress st = st\<lparr>downloadBtnDisabled := False, downloadProgressHidden := True\<rparr>"

definition setInterval :: "app_state \<Rightarrow> app_state" where
  \<comment> \<open>a new timer, with the variable \<^verbatim>\<open>progress\<close> of its click at 0; its handle is the
      length of the list before\<close>
  "setInterval st = st\<lparr>timers := timers st @ [\<lparr>progress = 0, active = True\<rparr>]\<rparr>"

definition clearInterval :: "nat \<Rightarrow> app_state \<Rightarrow> app_state" where
  "clearInterval k st =
     (if k < length (timers st)
      then st\<lparr>timers := (timers st)[k := (timers st ! k)\<lparr>active := False\<rparr>]\<rparr>
      else st)"

record payload =
  payload_url :: string
  payload_format_id :: string
  trim_times :: "int option list option"

definition downloadVideo_payload :: "string \<Rightarrow> string \<Rightarrow> int option list option \<Rightarrow> payload" where
  \<comment> \<open>the request body that \<^verbatim>\<open>downloadVideo\<close> posts\<close>
  "downloadVideo_payload u formatId trimTimes =
     \<lparr>payload_url = u, payload_format_id = formatId, trim_times = trimTimes\<rparr>"

definition downloadBtn_click :: "app_state \<Rightarrow> app_state \<times> payload option" where
  \<comment> \<open>the click handler up to the point where it waits for the download: the state it
      leaves and the request it has sent, if any. The timer it sets has the handle
      \<open>length (timers st)\<close>.\<close>
  "downloadBtn_click st =
     (case selectedFormat st of
        None \<Rightarrow> (showError ''Please select a video format first'' st, None)
      | Some fmt \<Rightarrow>
          (case validateTrimTimes st of
             (False, st1) \<Rightarrow> (st1, None)
           | (True, st1) \<Rightarrow>
               let st2 = showDownloadProgress st1;
                   trimTimes =
                     (if isTrimmingEnabled st2
                      then Some [parseTimeToSeconds (startTimeInput st2),
                                 parseTimeToSeconds (endTimeInput st2)]
                      else None);
                   st3 = setInterval st2
               in (st3, Some (downloadVideo_payload (trim (videoUrlInput st3))
                                (format_id fmt) trimTimes))))"

definition statusText :: "real \<Rightarrow> bool \<Rightarrow> string" where
  "statusText p trimming =
     (let text = ''Downloading...'';
          text = (if p > 30 \<and> trimming then ''Processing video...'' else text);
          text = (if p > 60 \<and> trimming then ''Trimming video...'' else text)
      in text)"

definition progress_callback :: "nat \<Rightarrow> real \<Rightarrow> app_state \<Rightarrow> app_state" where
  \<comment> \<open>the body of the callback of the timer \<open>k\<close>, on the variable \<^verbatim>\<open>progress\<close> of its own
      click; \<open>r\<close> is the value \<^verbatim>\<open>Math.random()\<close> returns\<close>
  "progress_callback k r st =
     (let p = fl (progress (timers st ! k) + fl (r * 15));
          p = (if p > 90 then 90 else p)
      in updateProgressBar p (statusText p (isTrimmingEnabled st))
           (st\<lparr>timers := (timers st)[k := (timers st ! k)\<lparr>progress := p\<rparr>]\<rparr>))"

definition tick :: "nat \<Rightarrow> real \<Rightarrow> app_state \<Rightarrow> app_state" where
  \<comment> \<open>the timer \<open>k\<close> fires: its callback runs if the timer exists and has not been cleared\<close>
  "tick k r st =
     (if k < length (timers st) \<and> active (timers st ! k) then progress_callback k r st else st)"

definition complete :: "nat \<Rightarrow> app_state \<Rightarrow> app_state" where
  \<comment> \<open>the two statements that follow the resolved download of the click with timer \<open>k\<close>\<close>
  "complete k st = updateProgressBar 100 ''Download complete!'' (clearInterval k st)"

definition download_failed :: "string \<Rightarrow> app_state \<Rightarrow> app_state" where
  \<comment> \<open>the \<^verbatim>\<open>catch\<close> branch of the click handler, with the message of the error. The
      timer of the click, declared inside the \<^verbatim>\<open>try\<close> block, is not cleared.\<close>
  "download_failed message st = showError message (hideDownloadProgress st)"

fun ticks :: "nat \<Rightarrow> real list \<Rightarrow> app_state \<Rightarrow> app_state list" where
  \<comment> \<open>the states after each of a sequence of events of the timer \<open>k\<close>\<close>
  "ticks k [] st = []"
| "ticks k (r # rs) st = tick k r st # ticks k rs (tick k r st)"

datatype phase = PREPARING | DOWNLOADING | PROCESSING | TRIMMING | COMPLETE

fun phase_label :: "phase \<Rightarrow> string" where
  "phase_label PREPARING = ''Preparing download...''"
| "phase_label DOWNLOADING = ''Downloading...''"
| "phase_label PROCESSING = ''Processing video...''"
| "phase_label TRIMMING = ''Trimming video...''"
| "phase_label COMPLETE = ''Download complete!''"

definition initial_state :: app_state where
  \<comment> \<open>the module-level variables as the script initialises them; the page elements empty,
      the dialogs and sections hidden\<close>
  "initial_state =
     \<lparr>currentVideoInfo = None, selectedFormat = None, isTrimmingEnabled = False,
      videoUrlInput = [], startTimeInput = [], endTimeInput = [],
      errorMessage = [], errorModalHidden = True,
      downloadBtnDisabled = False, downloadProgressHidden = True,
      progressFill = 0, progressText = [], progressPercentage = 0,
      timers = []\<rparr>"

definition running :: "nat \<Rightarrow> app_state \<Rightarrow> bool" where
  \<comment> \<open>what holds of the run with timer \<open>k\<close> between the click and the end of the download,
      as long as only its own timer fires: the timer is active, the bar shows its variable
      \<^verbatim>\<open>progress\<close>, and that is a double between 0 and 90\<close>
  "running k st \<longleftrightarrow>
     k < length (timers st) \<and> active (timers st ! k) \<and>
     progressFill st = progress (timers st ! k) \<and> is_double (progress (timers st ! k)) \<and>
     0 \<le> progress (timers st ! k) \<and> progress (timers st ! k) \<le> 90"

definition failed_run :: app_state where
  \<comment> \<open>a page with a format selected, after a click whose timer fired twice before the
      download failed, the error dialog closed, and two more events of that timer\<close>
  "failed_run =
     last (ticks 0 [1 / 2, 1 / 2]
       (hideError
         (download_failed ''Download failed: Failed to fetch''
           (last (ticks 0 [1 / 2, 1 / 2]
             (fst (downloadBtn_click
                (initial_state\<lparr>selectedFormat := Some \<lparr>format_id = ''22''\<rparr>\<rparr>))))))))"

definition retry_page :: app_state where
  \<comment> \<open>the same page after a second click, an event of the timer of the first click and
      an event of the timer of the second\<close>
  "retry_page = tick 1 (1 / 2) (tick 0 (1 / 2) (fst (downloadBtn_click failed_run)))"

definition trim_state :: "string \<Rightarrow> string \<Rightarrow> int option \<Rightarrow> app_state" where
  \<comment> \<open>a page with trimming switched on, the two time fields filled in, and a current video
      of the given duration\<close>
  "trim_state startText endText d =
     initial_state\<lparr>currentVideoInfo := Some \<lparr>duration = d\<rparr>, isTrimmingEnabled := True,
       startTimeInput := startText, endTimeInput := endText\<rparr>"

section \<open>Parsing a time\<close>

lemma colon_not_digit: "\<not> is_digit CHR '':''"
  by (simp add: is_digit_def)

lemma digit_value_range: "is_digit c \<Longrightarrow> 0 \<le> digit_value c \<and> digit_value c \<le> 9"
  by (auto simp: is_digit_def digit_value_def)

lemma digit_not_colon: "is_digit c \<Longrightarrow> c \<noteq> CHR '':''"
  using colon_not_digit by auto

lemma length_1_2_cases:
  "length ds = 1 \<or> length ds = 2 \<Longrightarrow> (\<exists>a. ds = [a]) \<or> (\<exists>a b. ds = [a, b])"
  by (cases ds; cases "tl ds"; cases "tl (tl ds)") auto

lemma length_2_cases: "length ss = 2 \<Longrightarrow> \<exists>c d. ss = [c, d]"
  by (cases ss; cases "tl ss") auto

lemma time_regex_short:
  "is_digit a \<Longrightarrow> is_digit c \<Longrightarrow> is_digit d \<Longrightarrow> time_regex [a, CHR '':'', c, d]"
  by (simp add: time_regex_def colon_not_digit)

lemma time_regex_long:
  "is_digit a \<Longrightarrow> is_digit b \<Longrightarrow> is_digit c \<Longrightarrow> is_digit d \<Longrightarrow> time_regex [a, b, CHR '':'', c, d]"
  by (simp add: time_regex_def colon_not_digit)

lemma time_regex_shape:
  assumes "time_regex t"
  shows "(\<exists>a c d. t = [a, CHR '':'', c, d] \<and> is_digit a \<and> is_digit c \<and> is_digit d) \<or>
         (\<exists>a b c d. t = [a, b, CHR '':'', c, d] \<and> is_digit a \<and> is_digit b \<and> is_digit c \<and> is_digit d)"
proof -
  define ds where "ds = takeWhile is_digit t"
  define rest where "rest = dropWhile is_digit t"
  have t: "t = ds @ rest" by (simp add: ds_def rest_def)
  have dsd: "\<forall>x \<in> set ds. is_digit x" unfolding ds_def by (auto dest: set_takeWhileD)
  from assms have len: "length ds = 1 \<or> length ds = 2"
    and r: "case rest of [] \<Rightarrow> False | c # ss \<Rightarrow> c = CHR '':'' \<and> length ss = 2 \<and> list_all is_digit ss"
    by (simp_all add: time_regex_def Let_def ds_def rest_def)
  from r obtain ss where rest: "rest = CHR '':'' # ss" and lss: "length ss = 2" and ssd: "list_all is_digit ss"
    by (cases rest) auto
  from lss obtain c d where ss: "ss = [c, d]" using length_2_cases by blast
  from length_1_2_cases[OF len] show ?thesis
  proof
    assume "\<exists>a. ds = [a]"
    then obtain a where "ds = [a]" by blast
    with t rest ss dsd ssd show ?thesis by simp
  next
    assume "\<exists>a b. ds = [a, b]"
    then obtain a b where "ds = [a, b]" by blast
    with t rest ss dsd ssd show ?thesis by simp
  qed
qed

lemma parse_short:
  assumes "is_digit a" "is_digit c" "is_digit d"
  shows "parseTimeToSeconds [a, CHR '':'', c, d] =
           (if digit_value c * 10 + digit_value d \<ge> 60 then None
            else Some (digit_value a * 60 + (digit_value c * 10 + digit_value d)))"
  using assms time_regex_short[OF assms] digit_not_colon
  by (simp add: parseTimeToSeconds_def Number_def)

lemma parse_long:
  assumes "is_digit a" "is_digit b" "is_digit c" "is_digit d"
  shows "parseTimeToSeconds [a, b, CHR '':'', c, d] =
           (if digit_value c * 10 + digit_value d \<ge> 60 then None
            else Some ((digit_value a * 10 + digit_value b) * 60 + (digit_value c * 10 + digit_value d)))"
  using assms time_regex_long[OF assms] digit_not_colon
  by (simp add: parseTimeToSeconds_def Number_def)

lemma parse_no_match: "\<not> time_regex t \<Longrightarrow> parseTimeToSeconds t = None"
  by (simp add: parseTimeToSeconds_def)

text \<open>
  C2. A text made of one or two digits, a colon and exactly two digits, whose last two
  digits read as a number of at most 59, parses to minutes times 60 plus seconds, which is
  not negative (\<^verbatim>\<open>"2:05"\<close> gives 125); with seconds of 60 or more, and for every text
  that has neither of the two shapes, the result is \<^verbatim>\<open>null\<close>.
\<close>

theorem parseTimeToSeconds_value:
  "(is_digit a \<and> is_digit c \<and> is_digit d \<longrightarrow>
      parseTimeToSeconds [a, CHR '':'', c, d] =
        (if digit_value c * 10 + digit_value d \<le> 59
         then Some (digit_value a * 60 + (digit_value c * 10 + digit_value d))
         else None)) \<and>
   (is_digit a \<and> is_digit b \<and> is_digit c \<and> is_digit d \<longrightarrow>
      parseTimeToSeconds [a, b, CHR '':'', c, d] =
        (if digit_value c * 10 + digit_value d \<le> 59
         then Some ((digit_value a * 10 + digit_value b) * 60 +
                    (digit_value c * 10 + digit_value d))
         else None)) \<and>
   ((\<nexists>a c d. t = [a, CHR '':'', c, d] \<and> is_digit a \<and> is_digit c \<and> is_digit d) \<and>
    (\<nexists>a b c d. t = [a, b, CHR '':'', c, d] \<and> is_digit a \<and> is_digit b \<and> is_digit c \<and> is_digit d)
      \<longrightarrow> parseTimeToSeconds t = None) \<and>
   (parseTimeToSeconds t = Some v \<longrightarrow> 0 \<le> v)"
proof (intro conjI impI)
  assume "is_digit a \<and> is_digit c \<and> is_digit d"
  then show "parseTimeToSeconds [a, CHR '':'', c, d] =
        (if digit_value c * 10 + digit_value d \<le> 59
         then Some (digit_value a * 60 + (digit_value c * 10 + digit_value d))
         else None)"
    by (auto simp: parse_short)
next
  assume "is_digit a \<and> is_digit b \<and> is_digit c \<and> is_digit d"
  then show "parseTimeToSeconds [a, b, CHR '':'', c, d] =
        (if digit_value c * 10 + digit_value d \<le> 59
         then Some ((digit_value a * 10 + digit_value b) * 60 +
                    (digit_value c * 10 + digit_value d))
         else None)"
    by (auto simp: parse_long)
next
  assume "(\<nexists>a c d. t = [a, CHR '':'', c, d] \<and> is_digit a \<and> is_digit c \<and> is_digit d) \<and>
    (\<nexists>a b c d. t = [a, b, CHR '':'', c, d] \<and> is_digit a \<and> is_digit b \<and> is_digit c \<and> is_digit d)"
  then have "\<not> time_regex t" using time_regex_shape [of t] by blast
  then show "parseTimeToSeconds t = None" by (rule parse_no_match)
next
  assume v: "parseTimeToSeconds t = Some v"
  then have "time_regex t" using parse_no_match [of t] by auto
  from time_regex_shape [OF this] show "0 \<le> v"
  proof (elim disjE exE conjE)
    fix a c d
    assume "t = [a, CHR '':'', c, d]" "is_digit a" "is_digit c" "is_digit d"
    then show ?thesis
      using v digit_value_range [of a] digit_value_range [of c] digit_value_range [of d]
      by (auto simp: parse_short split: if_splits)
  next
    fix a b c d
    assume "t = [a, b, CHR '':'', c, d]" "is_digit a" "is_digit b" "is_digit c" "is_digit d"
    then show ?thesis
      using v digit_value_range [of a] digit_value_range [of b]
        digit_value_range [of c] digit_value_range [of d]
      by (auto simp: parse_long split: if_splits)
  qed
qed

theorem parseTimeToSeconds_value_witness:
  "parseTimeToSeconds ''2:05'' = Some 125 \<and> parseTimeToSeconds ''12:30'' = Some 750 \<and>
   parseTimeToSeconds ''2:60'' = None \<and> parseTimeToSeconds ''12:75'' = None \<and>
   parseTimeToSeconds ''2.05'' = None \<and> parseTimeToSeconds ''123:05'' = None \<and>
   parseTimeToSeconds [] = None"
  using parseTimeToSeconds_value [of "CHR ''2''" "CHR ''0''" "CHR ''5''" "CHR ''0''" "''2.05''" 0]
    parseTimeToSeconds_value [of "CHR ''1''" "CHR ''3''" "CHR ''0''" "CHR ''2''" "''123:05''" 0]
    parseTimeToSeconds_value [of "CHR ''2''" "CHR ''6''" "CHR ''0''" "CHR ''0''" "[]" 0]
    parseTimeToSeconds_value [of "CHR ''1''" "CHR ''7''" "CHR ''5''" "CHR ''2''" "[]" 0]
  by (simp add: is_digit_def digit_value_def)

section \<open>Validating the trim times\<close>

lemma validate_disabled: "\<not> isTrimmingEnabled st \<Longrightarrow> validateTrimTimes st = (True, st)"
  by (simp add: validateTrimTimes_def)

lemma validate_bad_start:
  "isTrimmingEnabled st \<Longrightarrow> parseTimeToSeconds (startTimeInput st) = None \<Longrightarrow>
   validateTrimTimes st = (False, showError (error_text BadStart) st)"
  by (simp add: validateTrimTimes_def)

lemma validate_bad_end:
  "isTrimmingEnabled st \<Longrightarrow> parseTimeToSeconds (startTimeInput st) = Some s \<Longrightarrow>
   parseTimeToSeconds (endTimeInput st) = None \<Longrightarrow>
   validateTrimTimes st = (False, showError (error_text BadEnd) st)"
  by (simp add: validateTrimTimes_def)

lemma validate_order:
  "isTrimmingEnabled st \<Longrightarrow> parseTimeToSeconds (startTimeInput st) = Some s \<Longrightarrow>
   parseTimeToSeconds (endTimeInput st) = Some e \<Longrightarrow> e \<le> s \<Longrightarrow>
   validateTrimTimes st = (False, showError (error_text EndNotAfterStart) st)"
  by (simp add: validateTrimTimes_def)

lemma validate_ordered:
  "isTrimmingEnabled st \<Longrightarrow> parseTimeToSeconds (startTimeInput st) = Some s \<Longrightarrow>
   parseTimeToSeconds (endTimeInput st) = Some e \<Longrightarrow> s < e \<Longrightarrow>
   validateTrimTimes st = check_duration s e st"
  by (simp add: validateTrimTimes_def)

lemma error_text_inj: "error_text x = error_text y \<Longrightarrow> x = y"
  by (cases x; cases y) simp_all

lemma validate_passed: "fst (validateTrimTimes st) \<Longrightarrow> snd (validateTrimTimes st) = st"
  by (auto simp: validateTrimTimes_def check_duration_def Let_def split: option.splits if_splits)

lemma parse_examples:
  "parseTimeToSeconds ''0:05'' = Some 5" "parseTimeToSeconds ''0:10'' = Some 10"
  "parseTimeToSeconds ''0:35'' = Some 35"
  "parseTimeToSeconds ''2:05'' = Some 125" "parseTimeToSeconds ''2:35'' = Some 155"
  "parseTimeToSeconds ''2-05'' = None" "parseTimeToSeconds ''2:75'' = None"
  by (simp_all add: parseTimeToSeconds_def time_regex_def is_digit_def Number_def digit_value_def)

lemma trim_state_simps:
  "isTrimmingEnabled (trim_state a b d)" "startTimeInput (trim_state a b d) = a"
  "endTimeInput (trim_state a b d) = b" "currentVideoInfo (trim_state a b d) = Some \<lparr>duration = d\<rparr>"
  by (simp_all add: trim_state_def initial_state_def)

text \<open>
  C1. With trimming enabled the checks run in this order, and the first one that fails is
  the one reported, alone: the start time does not parse (BadStart); the end time does not
  parse (BadEnd); the end is not after the start (EndNotAfterStart); then, only when there
  is a current video whose duration is known and is not 0, the start is at or beyond the
  duration (StartBeyondMedia); the end is beyond it (EndBeyondMedia). Otherwise the
  validation passes and shows nothing. The five failures have five different messages.
\<close>

theorem validateTrimTimes_first_failure:
  assumes "isTrimmingEnabled st"
  shows
  "(parseTimeToSeconds (startTimeInput st) = None \<longrightarrow>
      validateTrimTimes st = (False, showError (error_text BadStart) st)) \<and>
   (parseTimeToSeconds (startTimeInput st) = Some s \<and>
    parseTimeToSeconds (endTimeInput st) = None \<longrightarrow>
      validateTrimTimes st = (False, showError (error_text BadEnd) st)) \<and>
   (parseTimeToSeconds (startTimeInput st) = Some s \<and>
    parseTimeToSeconds (endTimeInput st) = Some e \<and> e \<le> s \<longrightarrow>
      validateTrimTimes st = (False, showError (error_text EndNotAfterStart) st)) \<and>
   (parseTimeToSeconds (startTimeInput st) = Some s \<and>
    parseTimeToSeconds (endTimeInput st) = Some e \<and> s < e \<and>
    currentVideoInfo st = Some info \<and> duration info = Some d \<and> d \<noteq> 0 \<and> d \<le> s \<longrightarrow>
      validateTrimTimes st = (False, showError (error_text StartBeyondMedia) st)) \<and>
   (parseTimeToSeconds (startTimeInput st) = Some s \<and>
    parseTimeToSeconds (endTimeInput st) = Some e \<and> s < e \<and>
    currentVideoInfo st = Some info \<and> duration info = Some d \<and> d \<noteq> 0 \<and> s < d \<and> d < e \<longrightarrow>
      validateTrimTimes st = (False, showError (error_text EndBeyondMedia) st)) \<and>
   (parseTimeToSeconds (startTimeInput st) = Some s \<and>
    parseTimeToSeconds (endTimeInput st) = Some e \<and> s < e \<and>
    (currentVideoInfo st = None \<or>
     currentVideoInfo st = Some info \<and>
       (duration info = None \<or> duration info = Some 0 \<or>
        duration info = Some d \<and> s < d \<and> e \<le> d)) \<longrightarrow>
      validateTrimTimes st = (True, st)) \<and>
   (error_text x = error_text y \<longrightarrow> x = y)"
  using assms
  by (auto simp: validate_bad_start validate_bad_end validate_order validate_ordered
      check_duration_def dest: error_text_inj)

theorem validateTrimTimes_first_failure_witness:
  "validateTrimTimes (trim_state ''0:10'' ''0:05'' (Some 100)) =
     (False, showError (error_text EndNotAfterStart) (trim_state ''0:10'' ''0:05'' (Some 100))) \<and>
   validateTrimTimes (trim_state ''2:35'' ''2:05'' (Some 100)) =
     (False, showError (error_text EndNotAfterStart) (trim_state ''2:35'' ''2:05'' (Some 100))) \<and>
   check_duration 155 125 (trim_state ''2:35'' ''2:05'' (Some 100)) =
     (False, showError (error_text StartBeyondMedia) (trim_state ''2:35'' ''2:05'' (Some 100))) \<and>
   validateTrimTimes (trim_state ''2-05'' ''0:05'' (Some 100)) =
     (False, showError (error_text BadStart) (trim_state ''2-05'' ''0:05'' (Some 100))) \<and>
   validateTrimTimes (trim_state ''2:05'' ''2:75'' (Some 100)) =
     (False, showError (error_text BadEnd) (trim_state ''2:05'' ''2:75'' (Some 100))) \<and>
   validateTrimTimes (trim_state ''2:05'' ''2:35'' (Some 100)) =
     (False, showError (error_text StartBeyondMedia) (trim_state ''2:05'' ''2:35'' (Some 100))) \<and>
   validateTrimTimes (trim_state ''0:05'' ''2:35'' (Some 100)) =
     (False, showError (error_text EndBeyondMedia) (trim_state ''0:05'' ''2:35'' (Some 100))) \<and>
   validateTrimTimes (trim_state ''2:05'' ''2:35'' None) = (True, trim_state ''2:05'' ''2:35'' None)"
  using validateTrimTimes_first_failure [of "trim_state ''0:10'' ''0:05'' (Some 100)" 10 5 "\<lparr>duration = Some 100\<rparr>" 100]
    validateTrimTimes_first_failure [of "trim_state ''2:35'' ''2:05'' (Some 100)" 155 125 "\<lparr>duration = Some 100\<rparr>" 100]
    validateTrimTimes_first_failure [of "trim_state ''2-05'' ''0:05'' (Some 100)" 0 5 "\<lparr>duration = Some 100\<rparr>" 100]
    validateTrimTimes_first_failure [of "trim_state ''2:05'' ''2:75'' (Some 100)" 125 0 "\<lparr>duration = Some 100\<rparr>" 100]
    validateTrimTimes_first_failure [of "trim_state ''2:05'' ''2:35'' (Some 100)" 125 155 "\<lparr>duration = Some 100\<rparr>" 100]
    validateTrimTimes_first_failure [of "trim_state ''0:05'' ''2:35'' (Some 100)" 5 155 "\<lparr>duration = Some 100\<rparr>" 100]
    validateTrimTimes_first_failure [of "trim_state ''2:05'' ''2:35'' None" 125 155 "\<lparr>duration = None\<rparr>" 0]
  by (simp add: trim_state_simps parse_examples check_duration_def)

text \<open>
  The start \<^verbatim>\<open>0:10\<close> and the end \<^verbatim>\<open>0:05\<close> against a duration of 100 fail on the order
  alone: the bounds block, run on the two parsed times, passes. And against a duration of
  0 the start \<^verbatim>\<open>0:05\<close>, which is not before the duration, is accepted with the end
  \<^verbatim>\<open>0:10\<close>.
\<close>

theorem validateTrimTimes_first_failure_counterexample:
  "validateTrimTimes (trim_state ''0:10'' ''0:05'' (Some 100)) =
     (False, showError (error_text EndNotAfterStart) (trim_state ''0:10'' ''0:05'' (Some 100))) \<and>
   parseTimeToSeconds ''0:10'' = Some 10 \<and> parseTimeToSeconds ''0:05'' = Some 5 \<and>
   check_duration 10 5 (trim_state ''0:10'' ''0:05'' (Some 100)) =
     (True, trim_state ''0:10'' ''0:05'' (Some 100)) \<and>
   currentVideoInfo (trim_state ''0:05'' ''0:10'' (Some 0)) = Some \<lparr>duration = Some 0\<rparr> \<and>
   (0::int) \<le> 5 \<and>
   validateTrimTimes (trim_state ''0:05'' ''0:10'' (Some 0)) \<noteq>
     (False, showError (error_text StartBeyondMedia) (trim_state ''0:05'' ''0:10'' (Some 0))) \<and>
   validateTrimTimes (trim_state ''0:05'' ''0:10'' (Some 0)) =
     (True, trim_state ''0:05'' ''0:10'' (Some 0))"
  by (simp add: validateTrimTimes_def check_duration_def trim_state_simps parse_examples)

text \<open>
  C3. The parser has one failure value, \<^verbatim>\<open>null\<close>, for a text that does not match the
  pattern and for one that matches with seconds of 60 or more alike. The validation
  turns it into one message for the start field and another for the end field, whatever
  the cause: the caller can tell which field is wrong, not why.
\<close>

theorem parseTimeToSeconds_one_failure:
  "(\<not> time_regex t \<longrightarrow> parseTimeToSeconds t = None) \<and>
   (is_digit a \<and> is_digit c \<and> is_digit d \<and> 60 \<le> digit_value c * 10 + digit_value d \<longrightarrow>
      time_regex [a, CHR '':'', c, d] \<and> parseTimeToSeconds [a, CHR '':'', c, d] = None) \<and>
   (is_digit a \<and> is_digit b \<and> is_digit c \<and> is_digit d \<and>
    60 \<le> digit_value c * 10 + digit_value d \<longrightarrow>
      time_regex [a, b, CHR '':'', c, d] \<and> parseTimeToSeconds [a, b, CHR '':'', c, d] = None) \<and>
   (isTrimmingEnabled st \<and> parseTimeToSeconds (startTimeInput st) = None \<longrightarrow>
      validateTrimTimes st = (False, showError (error_text BadStart) st)) \<and>
   (isTrimmingEnabled st \<and> parseTimeToSeconds (startTimeInput st) = Some s \<and>
    parseTimeToSeconds (endTimeInput st) = None \<longrightarrow>
      validateTrimTimes st = (False, showError (error_text BadEnd) st)) \<and>
   error_text BadStart \<noteq> error_text BadEnd"
  by (auto simp: parse_no_match parse_short parse_long time_regex_short time_regex_long
      validate_bad_start validate_bad_end)

theorem parseTimeToSeconds_one_failure_witness:
  "parseTimeToSeconds ''2-05'' = None \<and> time_regex ''2:75'' \<and> parseTimeToSeconds ''2:75'' = None \<and>
   time_regex ''12:60'' \<and> parseTimeToSeconds ''12:60'' = None \<and>
   validateTrimTimes (trim_state ''2-05'' ''2:35'' None) =
     (False, showError (error_text BadStart) (trim_state ''2-05'' ''2:35'' None)) \<and>
   validateTrimTimes (trim_state ''2:75'' ''2:35'' None) =
     (False, showError (error_text BadStart) (trim_state ''2:75'' ''2:35'' None)) \<and>
   validateTrimTimes (trim_state ''2:05'' ''2:75'' None) =
     (False, showError (error_text BadEnd) (trim_state ''2:05'' ''2:75'' None))"
  using parseTimeToSeconds_one_failure [of "''2-05''" "CHR ''2''" "CHR ''7''" "CHR ''5''" "CHR ''0''"
      "trim_state ''2-05'' ''2:35'' None" 0]
    parseTimeToSeconds_one_failure [of "''2-05''" "CHR ''1''" "CHR ''6''" "CHR ''0''" "CHR ''2''"
      "trim_state ''2:75'' ''2:35'' None" 0]
    parseTimeToSeconds_one_failure [of "''2-05''" "CHR ''1''" "CHR ''6''" "CHR ''0''" "CHR ''2''"
      "trim_state ''2:05'' ''2:75'' None" 125]
  by (simp add: trim_state_simps parse_examples time_regex_def is_digit_def digit_value_def)

theorem parseTimeToSeconds_one_failure_counterexample:
  "\<not> time_regex ''2-05'' \<and> time_regex ''2:75'' \<and>
   parseTimeToSeconds ''2-05'' = parseTimeToSeconds ''2:75'' \<and>
   errorMessage (snd (validateTrimTimes (trim_state ''2-05'' ''2:35'' None))) =
   errorMessage (snd (validateTrimTimes (trim_state ''2:75'' ''2:35'' None)))"
  by (simp add: validateTrimTimes_def trim_state_simps parse_examples time_regex_def
      is_digit_def showError_def)

text \<open>
  C4. With trimming enabled, both times parsed and the end after the start: when the
  current video has a duration other than 0, a start at or beyond it fails with
  StartBeyondMedia, and otherwise an end beyond it fails with EndBeyondMedia; when the
  duration is 0, as when it is missing, the bounds are not checked and the range is
  accepted.
\<close>

theorem validateTrimTimes_bounds:
  assumes "isTrimmingEnabled st"
    and "parseTimeToSeconds (startTimeInput st) = Some s"
    and "parseTimeToSeconds (endTimeInput st) = Some e"
    and "s < e"
    and "currentVideoInfo st = Some info"
  shows
  "(duration info = Some d \<and> d \<noteq> 0 \<and> d \<le> s \<longrightarrow>
      validateTrimTimes st = (False, showError (error_text StartBeyondMedia) st)) \<and>
   (duration info = Some d \<and> d \<noteq> 0 \<and> s < d \<and> d < e \<longrightarrow>
      validateTrimTimes st = (False, showError (error_text EndBeyondMedia) st)) \<and>
   (duration info = Some d \<and> d \<noteq> 0 \<and> s < d \<and> e \<le> d \<longrightarrow> validateTrimTimes st = (True, st)) \<and>
   (duration info = Some 0 \<or> duration info = None \<longrightarrow> validateTrimTimes st = (True, st))"
  using assms by (auto simp: validate_ordered check_duration_def)

theorem validateTrimTimes_bounds_witness:
  "validateTrimTimes (trim_state ''2:05'' ''2:35'' (Some 125)) =
     (False, showError (error_text StartBeyondMedia) (trim_state ''2:05'' ''2:35'' (Some 125))) \<and>
   validateTrimTimes (trim_state ''2:05'' ''2:35'' (Some 154)) =
     (False, showError (error_text EndBeyondMedia) (trim_state ''2:05'' ''2:35'' (Some 154))) \<and>
   validateTrimTimes (trim_state ''2:05'' ''2:35'' (Some 155)) =
     (True, trim_state ''2:05'' ''2:35'' (Some 155)) \<and>
   validateTrimTimes (trim_state ''0:10'' ''0:35'' (Some 0)) =
     (True, trim_state ''0:10'' ''0:35'' (Some 0))"
  using validateTrimTimes_bounds [of "trim_state ''2:05'' ''2:35'' (Some 125)" 125 155 "\<lparr>duration = Some 125\<rparr>" 125]
    validateTrimTimes_bounds [of "trim_state ''2:05'' ''2:35'' (Some 154)" 125 155 "\<lparr>duration = Some 154\<rparr>" 154]
    validateTrimTimes_bounds [of "trim_state ''2:05'' ''2:35'' (Some 155)" 125 155 "\<lparr>duration = Some 155\<rparr>" 155]
    validateTrimTimes_bounds [of "trim_state ''0:10'' ''0:35'' (Some 0)" 10 35 "\<lparr>duration = Some 0\<rparr>" 0]
  by (simp add: trim_state_simps parse_examples)

theorem validateTrimTimes_bounds_counterexample:
  "currentVideoInfo (trim_state ''0:05'' ''0:10'' (Some 0)) = Some \<lparr>duration = Some 0\<rparr> \<and>
   parseTimeToSeconds ''0:05'' = Some 5 \<and> parseTimeToSeconds ''0:10'' = Some 10 \<and>
   (0::int) \<le> 5 \<and>
   validateTrimTimes (trim_state ''0:05'' ''0:10'' (Some 0)) \<noteq>
     (False, showError (error_text StartBeyondMedia) (trim_state ''0:05'' ''0:10'' (Some 0))) \<and>
   validateTrimTimes (trim_state ''0:05'' ''0:10'' (Some 0)) =
     (True, trim_state ''0:05'' ''0:10'' (Some 0))"
  by (simp add: validateTrimTimes_def check_duration_def trim_state_simps parse_examples)

section \<open>The request of a download\<close>

lemma showDownloadProgress_keeps:
  "isTrimmingEnabled (showDownloadProgress st) = isTrimmingEnabled st"
  "startTimeInput (showDownloadProgress st) = startTimeInput st"
  "endTimeInput (showDownloadProgress st) = endTimeInput st"
  "videoUrlInput (showDownloadProgress st) = videoUrlInput st"
  by (simp_all add: showDownloadProgress_def updateProgressBar_def)

lemma click_passed:
  assumes "selectedFormat st = Some fmt" "fst (validateTrimTimes st)"
  shows "snd (downloadBtn_click st) =
           Some (downloadVideo_payload (trim (videoUrlInput st)) (format_id fmt)
                   (if isTrimmingEnabled st
                    then Some [parseTimeToSeconds (startTimeInput st),
                               parseTimeToSeconds (endTimeInput st)]
                    else None))"
proof -
  from assms(2) validate_passed [OF assms(2)] have "validateTrimTimes st = (True, st)"
    by (cases "validateTrimTimes st") simp
  then show ?thesis
    using assms(1)
    by (simp add: downloadBtn_click_def Let_def showDownloadProgress_keeps setInterval_def)
qed

lemma validate_passed_range:
  assumes "isTrimmingEnabled st" "fst (validateTrimTimes st)"
  shows "\<exists>s e. parseTimeToSeconds (startTimeInput st) = Some s \<and>
               parseTimeToSeconds (endTimeInput st) = Some e \<and> s < e"
  using assms
  by (auto simp: validateTrimTimes_def Let_def split: option.splits if_splits)

text \<open>
  C8. With trimming disabled the validation returns true and leaves the state as it
  is, so no error is shown, whatever the two time fields and the video are; and the
  request that a click then sends carries no range.
\<close>

theorem validateTrimTimes_disabled:
  assumes "\<not> isTrimmingEnabled st"
  shows "validateTrimTimes st = (True, st) \<and>
         (selectedFormat st = Some fmt \<longrightarrow>
            (\<exists>p. snd (downloadBtn_click st) = Some p \<and> trim_times p = None))"
  using assms click_passed [of st fmt]
  by (simp add: validate_disabled downloadVideo_payload_def)

theorem validateTrimTimes_disabled_witness:
  "validateTrimTimes (initial_state\<lparr>startTimeInput := ''soon'', endTimeInput := []\<rparr>) =
     (True, initial_state\<lparr>startTimeInput := ''soon'', endTimeInput := []\<rparr>) \<and>
   (\<exists>p. snd (downloadBtn_click (initial_state\<lparr>selectedFormat := Some \<lparr>format_id = ''22''\<rparr>,
              startTimeInput := ''9:99'', endTimeInput := ''0:00''\<rparr>)) = Some p \<and>
        trim_times p = None)"
  using validateTrimTimes_disabled [of "initial_state\<lparr>startTimeInput := ''soon'', endTimeInput := []\<rparr>" "\<lparr>format_id = ''22''\<rparr>"]
    validateTrimTimes_disabled [of "initial_state\<lparr>selectedFormat := Some \<lparr>format_id = ''22''\<rparr>,
              startTimeInput := ''9:99'', endTimeInput := ''0:00''\<rparr>" "\<lparr>format_id = ''22''\<rparr>"]
  by (simp add: initial_state_def)

text \<open>
  C9. When a format is selected and the validation passes, the click sends one request.
  Its \<^verbatim>\<open>trim_times\<close> is \<^verbatim>\<open>null\<close> when trimming is disabled; when trimming is enabled it
  is the array of exactly two numbers, the parsed start and the parsed end in this
  order, the start before the end. When no format is selected or the validation fails,
  nothing is sent.
\<close>

theorem downloadBtn_click_trim_times:
  "(selectedFormat st = Some fmt \<and> fst (validateTrimTimes st) \<and> \<not> isTrimmingEnabled st \<longrightarrow>
      (\<exists>p. snd (downloadBtn_click st) = Some p \<and> trim_times p = None)) \<and>
   (selectedFormat st = Some fmt \<and> fst (validateTrimTimes st) \<and> isTrimmingEnabled st \<longrightarrow>
      (\<exists>p s e. snd (downloadBtn_click st) = Some p \<and>
         parseTimeToSeconds (startTimeInput st) = Some s \<and>
         parseTimeToSeconds (endTimeInput st) = Some e \<and> s < e \<and>
         trim_times p = Some [Some s, Some e])) \<and>
   (selectedFormat st = None \<or> \<not> fst (validateTrimTimes st) \<longrightarrow>
      snd (downloadBtn_click st) = None)"
proof (intro conjI impI)
  assume "selectedFormat st = Some fmt \<and> fst (validateTrimTimes st) \<and> \<not> isTrimmingEnabled st"
  then show "\<exists>p. snd (downloadBtn_click st) = Some p \<and> trim_times p = None"
    using click_passed [of st fmt] by (simp add: downloadVideo_payload_def)
next
  assume a: "selectedFormat st = Some fmt \<and> fst (validateTrimTimes st) \<and> isTrimmingEnabled st"
  then obtain s e where "parseTimeToSeconds (startTimeInput st) = Some s"
    "parseTimeToSeconds (endTimeInput st) = Some e" "s < e"
    using validate_passed_range [of st] by blast
  then show "\<exists>p s e. snd (downloadBtn_click st) = Some p \<and>
         parseTimeToSeconds (startTimeInput st) = Some s \<and>
         parseTimeToSeconds (endTimeInput st) = Some e \<and> s < e \<and>
         trim_times p = Some [Some s, Some e]"
    using a click_passed [of st fmt] by (simp add: downloadVideo_payload_def)
next
  assume "selectedFormat st = None \<or> \<not> fst (validateTrimTimes st)"
  then show "snd (downloadBtn_click st) = None"
    by (cases "validateTrimTimes st") (auto simp: downloadBtn_click_def split: option.splits bool.splits)
qed

theorem downloadBtn_click_trim_times_witness:
  "(\<exists>p. snd (downloadBtn_click ((trim_state ''2:05'' ''2:35'' None)\<lparr>selectedFormat := Some \<lparr>format_id = ''22''\<rparr>\<rparr>)) = Some p \<and>
        trim_times p = Some [Some 125, Some 155]) \<and>
   (\<exists>p. snd (downloadBtn_click (initial_state\<lparr>selectedFormat := Some \<lparr>format_id = ''22''\<rparr>\<rparr>)) = Some p \<and>
        trim_times p = None) \<and>
   snd (downloadBtn_click (trim_state ''2:05'' ''2:35'' None)) = None"
proof -
  let ?a = "(trim_state ''2:05'' ''2:35'' None)\<lparr>selectedFormat := Some \<lparr>format_id = ''22''\<rparr>\<rparr>"
  let ?b = "initial_state\<lparr>selectedFormat := Some \<lparr>format_id = ''22''\<rparr>\<rparr>"
  have a: "selectedFormat ?a = Some \<lparr>format_id = ''22''\<rparr> \<and> fst (validateTrimTimes ?a) \<and> isTrimmingEnabled ?a"
    and pa: "parseTimeToSeconds (startTimeInput ?a) = Some 125" "parseTimeToSeconds (endTimeInput ?a) = Some 155"
    by (simp_all add: validateTrimTimes_def check_duration_def trim_state_def initial_state_def parse_examples)
  have b: "selectedFormat ?b = Some \<lparr>format_id = ''22''\<rparr> \<and> fst (validateTrimTimes ?b) \<and> \<not> isTrimmingEnabled ?b"
    by (simp add: validateTrimTimes_def initial_state_def)
  have c: "selectedFormat (trim_state ''2:05'' ''2:35'' None) = None"
    by (simp add: trim_state_def initial_state_def)
  from a pa downloadBtn_click_trim_times [of ?a "\<lparr>format_id = ''22''\<rparr>"]
  have "\<exists>p. snd (downloadBtn_click ?a) = Some p \<and> trim_times p = Some [Some 125, Some 155]"
    by auto
  moreover from b downloadBtn_click_trim_times [of ?b "\<lparr>format_id = ''22''\<rparr>"]
  have "\<exists>p. snd (downloadBtn_click ?b) = Some p \<and> trim_times p = None"
    by blast
  moreover from c downloadBtn_click_trim_times [of "trim_state ''2:05'' ''2:35'' None" "\<lparr>format_id = ''22''\<rparr>"]
  have "snd (downloadBtn_click (trim_state ''2:05'' ''2:35'' None)) = None"
    by blast
  ultimately show ?thesis by blast
qed

section \<open>Rounding to a double\<close>


lemma round_even_of_int [simp]: "round_even (of_int n) = n"
  by (simp add: round_even_def)

lemma round_even_mono: "x \<le> y \<Longrightarrow> round_even x \<le> round_even y"
proof -
  assume xy: "x \<le> y"
  have fx: "\<lfloor>x\<rfloor> \<le> round_even x" "round_even x \<le> \<lfloor>x\<rfloor> + 1"
    and fy: "\<lfloor>y\<rfloor> \<le> round_even y" "round_even y \<le> \<lfloor>y\<rfloor> + 1"
    by (simp_all add: round_even_def Let_def)
  have le: "\<lfloor>x\<rfloor> \<le> \<lfloor>y\<rfloor>" using xy by (rule floor_mono)
  show ?thesis
  proof (cases "\<lfloor>x\<rfloor> = \<lfloor>y\<rfloor>")
    case True
    then show ?thesis using xy by (auto simp: round_even_def Let_def)
  next
    case False
    then have "\<lfloor>x\<rfloor> + 1 \<le> \<lfloor>y\<rfloor>" using le by simp
    then show ?thesis using fx fy by linarith
  qed
qed

lemma binade_range: "e - int k \<le> binade k e x \<and> binade k e x \<le> e"
proof (induction k arbitrary: e)
  case 0
  show ?case by simp
next
  case (Suc k)
  from Suc [of "e - 1"] show ?case by simp
qed

lemma binade_above: "binade k e x < e' \<Longrightarrow> e' \<le> e \<Longrightarrow> x < 2 powi e'"
proof (induction k arbitrary: e)
  case 0
  then show ?case by simp
next
  case (Suc k)
  show ?case
  proof (cases "2 powi e \<le> x")
    case True
    then show ?thesis using Suc.prems by simp
  next
    case False
    show ?thesis
    proof (cases "e' = e")
      case True
      then show ?thesis using False by simp
    next
      case False2: False
      then have "e' \<le> e - 1" using Suc.prems by simp
      moreover have "binade k (e - 1) x < e'" using Suc.prems False by simp
      ultimately show ?thesis by (rule Suc.IH [rotated])
    qed
  qed
qed

lemma binade_below: "e - int k < binade k e x \<Longrightarrow> 2 powi (binade k e x) \<le> x"
proof (induction k arbitrary: e)
  case 0
  then show ?case by simp
next
  case (Suc k)
  show ?case
  proof (cases "2 powi e \<le> x")
    case True
    then show ?thesis by simp
  next
    case False
    then have "binade (Suc k) e x = binade k (e - 1) x" by simp
    moreover have "e - 1 - int k < binade k (e - 1) x" using Suc.prems False by simp
    ultimately show ?thesis using Suc.IH [of "e - 1"] by simp
  qed
qed

lemma exponent_range: "emin \<le> exponent x" "exponent x \<le> emax"
  using binade_range [of 1023 2045 "\<bar>x\<bar>"] by (simp_all add: exponent_def emin_def emax_def)

lemma exponent_above: "exponent x < e \<Longrightarrow> e \<le> emax \<Longrightarrow> \<bar>x\<bar> < 2 powi e"
  unfolding exponent_def emax_def by (rule binade_above)

lemma exponent_below: "emin < exponent x \<Longrightarrow> 2 powi (exponent x) \<le> \<bar>x\<bar>"
proof -
  assume "emin < exponent x"
  then have "1023 - int 2045 < binade 2045 1023 \<bar>x\<bar>" by (simp add: exponent_def emin_def)
  then have "2 powi (binade 2045 1023 \<bar>x\<bar>) \<le> \<bar>x\<bar>" by (rule binade_below)
  then show ?thesis by (simp only: exponent_def)
qed

lemma exponent_eqI:
  assumes "2 powi e \<le> \<bar>x\<bar>" "\<bar>x\<bar> < 2 powi (e + 1)" "emin \<le> e" "e < emax"
  shows "exponent x = e"
proof (rule antisym)
  show "exponent x \<le> e"
  proof (rule ccontr)
    assume "\<not> exponent x \<le> e"
    then have "e + 1 \<le> exponent x" "emin < exponent x" using assms(3) by simp_all
    then have "(2::real) powi (e + 1) \<le> 2 powi (exponent x)" "2 powi (exponent x) \<le> \<bar>x\<bar>"
      using exponent_below [of x] by (simp_all add: power_int_increasing)
    then show False using assms(2) by simp
  qed
  show "e \<le> exponent x"
  proof (rule ccontr)
    assume "\<not> e \<le> exponent x"
    then have "exponent x < e" by simp
    then have "\<bar>x\<bar> < 2 powi e" using assms(4) by (intro exponent_above) simp_all
    then show False using assms(1) by simp
  qed
qed

lemma exponent_mono: "\<bar>x\<bar> \<le> \<bar>y\<bar> \<Longrightarrow> exponent x \<le> exponent y"
proof (rule ccontr)
  assume xy: "\<bar>x\<bar> \<le> \<bar>y\<bar>" and "\<not> exponent x \<le> exponent y"
  then have lt: "exponent y < exponent x" by simp
  then have "\<bar>y\<bar> < 2 powi (exponent x)"
    using exponent_range(2) [of x] by (intro exponent_above) simp_all
  moreover have "2 powi (exponent x) \<le> \<bar>x\<bar>"
    using lt exponent_range(1) [of y] by (intro exponent_below) simp
  ultimately show False using xy by simp
qed

lemma ulp_pos: "0 < ulp x"
  by (simp add: ulp_def)

lemma two_powi_52: "2 powi (e - 52) * (2::real) ^ 52 = 2 powi e"
proof -
  have "(2::real) powi (e - 52) * 2 powi 52 = 2 powi e"
    by (subst power_int_add [symmetric]) simp_all
  then show ?thesis by simp
qed

text \<open>Rounding stays inside the closed binade.\<close>

lemma fl_lower:
  assumes "0 \<le> x" "2 powi (exponent x) \<le> x"
  shows "2 powi (exponent x) \<le> fl x"
proof -
  have "(2::real) ^ 52 = 2 powi (exponent x) / ulp x"
    using two_powi_52 [of "exponent x"] by (simp add: ulp_def field_simps)
  also have "\<dots> \<le> x / ulp x" using assms(2) ulp_pos [of x] by (simp add: divide_right_mono)
  finally have "round_even (of_int (2 ^ 52)) \<le> round_even (x / ulp x)"
    by (intro round_even_mono) simp
  then have "(2::real) ^ 52 \<le> of_int (round_even (x / ulp x))"
    by (simp only: round_even_of_int) (metis of_int_le_iff of_int_numeral of_int_power)
  then have "2 ^ 52 * ulp x \<le> fl x"
    unfolding fl_def using ulp_pos [of x] by (simp add: mult_right_mono)
  then show ?thesis using two_powi_52 [of "exponent x"] by (simp add: ulp_def mult.commute)
qed

lemma fl_upper:
  assumes "0 \<le> x" "x \<le> 2 powi (exponent x + 1)"
  shows "fl x \<le> 2 powi (exponent x + 1)"
proof -
  have "x / ulp x \<le> 2 powi (exponent x + 1) / ulp x"
    using assms(2) ulp_pos [of x] by (simp add: divide_right_mono)
  also have "\<dots> = (2::real) ^ 53"
    using two_powi_52 [of "exponent x"] by (simp add: ulp_def field_simps power_int_add)
  finally have "round_even (x / ulp x) \<le> round_even (of_int (2 ^ 53))"
    by (intro round_even_mono) simp
  then have "of_int (round_even (x / ulp x)) \<le> (2::real) ^ 53"
    by (simp only: round_even_of_int) (metis of_int_le_iff of_int_numeral of_int_power)
  then have "fl x \<le> 2 ^ 53 * ulp x"
    unfolding fl_def using ulp_pos [of x] by (simp add: mult_right_mono)
  then show ?thesis
    using two_powi_52 [of "exponent x"] by (simp add: ulp_def power_int_add field_simps)
qed

lemma fl_nonneg: "0 \<le> x \<Longrightarrow> 0 \<le> fl x"
proof -
  assume "0 \<le> x"
  then have "0 \<le> x / ulp x" using ulp_pos [of x] by simp
  then have "round_even (of_int 0) \<le> round_even (x / ulp x)" by (intro round_even_mono) simp
  then have "0 \<le> round_even (x / ulp x)" by (simp only: round_even_of_int)
  then show ?thesis unfolding fl_def using ulp_pos [of x] by simp
qed

lemma fl_mono:
  assumes "0 \<le> x" "x \<le> y"
  shows "fl x \<le> fl y"
proof (cases "exponent x = exponent y")
  case True
  then have u: "ulp x = ulp y" by (simp add: ulp_def)
  have "x / ulp y \<le> y / ulp y" using assms(2) ulp_pos [of y] by (simp add: divide_right_mono)
  then have "round_even (x / ulp y) \<le> round_even (y / ulp y)" by (rule round_even_mono)
  then show ?thesis unfolding fl_def u using ulp_pos [of y] by (simp add: mult_right_mono)
next
  case False
  have "exponent x \<le> exponent y" using assms by (intro exponent_mono) simp
  with False have lt: "exponent x < exponent y" by simp
  have y: "0 \<le> y" using assms by simp
  have "x < 2 powi (exponent x + 1)"
    using exponent_above [of x "exponent x + 1"] lt exponent_range(2) [of y] assms(1) by simp
  then have "fl x \<le> 2 powi (exponent x + 1)" using assms(1) by (intro fl_upper) simp_all
  also have "\<dots> \<le> (2::real) powi (exponent y)" using lt by (simp add: power_int_increasing)
  also have "\<dots> \<le> fl y"
    using exponent_below [of y] lt exponent_range(1) [of x] y by (intro fl_lower) simp_all
  finally show ?thesis .
qed


lemma exponent_less:
  assumes "\<bar>x\<bar> < 2 powi e" "emin < e"
  shows "exponent x < e"
proof (rule ccontr)
  assume "\<not> exponent x < e"
  then have le: "e \<le> exponent x" by simp
  then have "emin < exponent x" using assms(2) by simp
  then have "2 powi (exponent x) \<le> \<bar>x\<bar>" by (rule exponent_below)
  moreover have "(2::real) powi e \<le> 2 powi (exponent x)" using le by (simp add: power_int_increasing)
  ultimately show False using assms(1) by simp
qed

lemma is_double_dyadic:
  assumes "\<bar>m\<bar> < 2 ^ 53" "emin - 52 \<le> k"
  shows "is_double (of_int m * 2 powi k)"
proof -
  let ?x = "of_int m * 2 powi k :: real"
  have "\<bar>?x\<bar> = of_int \<bar>m\<bar> * 2 powi k" by (simp add: abs_mult)
  also have "\<dots> < 2 ^ 53 * 2 powi k"
  proof -
    have "(of_int \<bar>m\<bar> :: real) < of_int (2 ^ 53)" using assms(1) by (simp only: of_int_less_iff)
    then show ?thesis by (simp add: mult_strict_right_mono)
  qed
  also have "\<dots> = 2 powi (k + 53)" by (simp add: power_int_add)
  finally have "exponent ?x < k + 53" using assms(2) by (intro exponent_less) simp_all
  then have d: "0 \<le> k - exponent ?x + 52" by simp
  define j where "j = nat (k - exponent ?x + 52)"
  have "?x / ulp ?x = of_int m * (2 powi k / 2 powi (exponent ?x - 52))" by (simp add: ulp_def)
  also have "2 powi k / 2 powi (exponent ?x - 52) = (2::real) powi (k - (exponent ?x - 52))"
    by (simp add: power_int_diff)
  also have "\<dots> = 2 ^ j" using d by (simp add: j_def power_int_nonneg_exp algebra_simps)
  finally have "?x / ulp ?x = of_int (m * 2 ^ j)" by simp
  then have "round_even (?x / ulp ?x) = m * 2 ^ j" by (simp only: round_even_of_int)
  then have "fl ?x = of_int (m * 2 ^ j) * ulp ?x" by (simp only: fl_def)
  also have "\<dots> = ?x / ulp ?x * ulp ?x" using \<open>?x / ulp ?x = of_int (m * 2 ^ j)\<close> by simp
  also have "\<dots> = ?x" using ulp_pos [of ?x] by simp
  finally show ?thesis by (simp add: is_double_def)
qed

lemma is_double_of_int: "\<bar>m\<bar> < 2 ^ 53 \<Longrightarrow> is_double (of_int m)"
  using is_double_dyadic [of m 0] by (simp add: emin_def)

lemma round_bound:
  assumes "0 \<le> x" "x \<le> 2 powi (exponent x + 1)"
  shows "0 \<le> round_even (x / ulp x)" "round_even (x / ulp x) \<le> 2 ^ 53"
proof -
  have "0 \<le> x / ulp x" using assms(1) ulp_pos [of x] by simp
  then have "round_even (of_int 0) \<le> round_even (x / ulp x)" by (intro round_even_mono) simp
  then show "0 \<le> round_even (x / ulp x)" by (simp only: round_even_of_int)
  have "x / ulp x \<le> 2 powi (exponent x + 1) / ulp x"
    using assms(2) ulp_pos [of x] by (simp add: divide_right_mono)
  also have "\<dots> = (2::real) ^ 53"
    using two_powi_52 [of "exponent x"] by (simp add: ulp_def field_simps power_int_add)
  finally have "round_even (x / ulp x) \<le> round_even (of_int (2 ^ 53))"
    by (intro round_even_mono) simp
  then show "round_even (x / ulp x) \<le> 2 ^ 53" by (simp only: round_even_of_int)
qed

lemma in_binade:
  assumes "0 \<le> x" "x < 2 powi (emax + 1)"
  shows "x \<le> 2 powi (exponent x + 1)"
proof (cases "exponent x < emax")
  case True
  then show ?thesis using exponent_above [of x "exponent x + 1"] assms(1) by simp
next
  case False
  then have "exponent x = emax" using exponent_range(2) [of x] by simp
  then show ?thesis using assms(2) by simp
qed

lemma is_double_fl:
  assumes "0 \<le> x" "x < 2 powi (emax + 1)"
  shows "is_double (fl x)"
proof -
  let ?n = "round_even (x / ulp x)"
  have n: "0 \<le> ?n" "?n \<le> 2 ^ 53"
    using round_bound [OF assms(1) in_binade [OF assms]] by simp_all
  have k: "emin - 52 \<le> exponent x - 52" using exponent_range(1) [of x] by simp
  show ?thesis
  proof (cases "?n = 2 ^ 53")
    case True
    have "fl x = of_int (2 ^ 53) * ulp x" by (simp only: fl_def True)
    moreover have "(2::real) powi (exponent x - 52 + 1) = 2 powi (exponent x - 52) * 2"
      by (subst power_int_add) simp_all
    ultimately have "fl x = of_int (2 ^ 52) * 2 powi (exponent x - 52 + 1)"
      by (simp add: ulp_def)
    moreover have "is_double (of_int (2 ^ 52) * 2 powi (exponent x - 52 + 1))"
      using k by (intro is_double_dyadic) simp_all
    ultimately show ?thesis by simp
  next
    case False
    then have "\<bar>?n\<bar> < 2 ^ 53" using n by simp
    then have "is_double (of_int ?n * 2 powi (exponent x - 52))" using k by (rule is_double_dyadic)
    then show ?thesis by (simp add: fl_def ulp_def)
  qed
qed

lemma fl_eval:
  assumes "2 powi e \<le> \<bar>x\<bar>" "\<bar>x\<bar> < 2 powi (e + 1)" "emin \<le> e" "e < emax"
  shows "fl x = of_int (round_even (x / 2 powi (e - 52))) * 2 powi (e - 52)"
  using exponent_eqI [OF assms] by (simp add: fl_def ulp_def)

lemma fl_0 [simp]: "fl 0 = 0"
  by (simp add: fl_def round_even_def)

lemma below_one:
  assumes "is_double r" "0 \<le> r" "r < 1"
  shows "r \<le> 1 - 1 / 2 ^ 53"
proof (cases "r < 1 / 2")
  case True
  then show ?thesis by simp
next
  case False
  then have "2 powi (- 1) \<le> \<bar>r\<bar>" "\<bar>r\<bar> < 2 powi (- 1 + 1)" using assms by simp_all
  then have e: "exponent r = - 1" by (rule exponent_eqI) (simp_all add: emin_def emax_def)
  define n where "n = round_even (r / 2 powi (- 53))"
  have r: "r = of_int n * 2 powi (- 53)"
    using assms(1) by (simp add: is_double_def fl_def ulp_def e n_def)
  then have "of_int n = r * 2 ^ 53" by simp
  also have "\<dots> < 2 ^ 53" using assms(3) by simp
  finally have "of_int n < (of_int (2 ^ 53) :: real)" by simp
  then have "n < 2 ^ 53" by (simp only: of_int_less_iff)
  then have "n \<le> 2 ^ 53 - 1" by simp
  then have "(of_int n :: real) \<le> of_int (2 ^ 53 - 1)" by (simp only: of_int_le_iff)
  then have "of_int n * 2 powi (- 53) \<le> (of_int (2 ^ 53 - 1) :: real) * 2 powi (- 53)"
    by (intro mult_right_mono) simp_all
  then show ?thesis by (subst r) simp
qed

lemma fl_increment_top: "fl (15 * (1 - 1 / 2 ^ 53)) = 15 - 1 / 2 ^ 49"
proof -
  have "fl (15 * (1 - 1 / 2 ^ 53)) =
          of_int (round_even (15 * (1 - 1 / 2 ^ 53) / 2 powi (3 - 52))) * 2 powi (3 - 52)"
    by (rule fl_eval) (simp_all add: emin_def emax_def)
  also have "\<dots> = 15 - 1 / 2 ^ 49" by (simp add: round_even_def)
  finally show ?thesis .
qed

lemma increment_range:
  assumes "is_double r" "0 \<le> r" "r < 1"
  shows "0 \<le> fl (r * 15)" "fl (r * 15) < 15"
proof -
  show "0 \<le> fl (r * 15)" using assms(2) by (intro fl_nonneg) simp
  have "r * 15 \<le> 15 * (1 - 1 / 2 ^ 53)" using below_one [OF assms] by simp
  then have "fl (r * 15) \<le> fl (15 * (1 - 1 / 2 ^ 53))" using assms(2) by (intro fl_mono) simp_all
  then have "fl (r * 15) \<le> 15 - 1 / 2 ^ 49" by (simp only: fl_increment_top)
  then show "fl (r * 15) < 15" by simp
qed

section \<open>Formatting a time and parsing it back\<close>






















section \<open>The simulated progress\<close>

lemma fl_half: "\<bar>m\<bar> < 2 ^ 53 \<Longrightarrow> fl (of_int m / 2) = of_int m / 2"
  using is_double_dyadic [of m "- 1"] by (simp add: is_double_def emin_def)

lemma fl_int: "\<bar>m\<bar> < 2 ^ 53 \<Longrightarrow> fl (of_int m) = of_int m"
  using is_double_of_int [of m] by (simp add: is_double_def)

lemma fl_examples:
  "fl (15 / 2) = 15 / 2" "fl 15 = 15" "fl (45 / 2) = 45 / 2" "fl 30 = 30" "fl (75 / 2) = 75 / 2"
  "fl 45 = 45" "fl (105 / 2) = 105 / 2" "fl 60 = 60" "fl (135 / 2) = 135 / 2" "fl 90 = 90"
  using fl_half [of 15] fl_int [of 15] fl_half [of 45] fl_int [of 30] fl_half [of 75]
    fl_int [of 45] fl_half [of 105] fl_int [of 60] fl_half [of 135] fl_int [of 90]
  by simp_all

lemma is_double_examples:
  "is_double 0" "is_double (1 / 2)" "is_double (1 / 4)" "is_double 90"
  "is_double (4503599627370495 / 4503599627370496)"
  using is_double_dyadic [of 1 "- 1"] is_double_dyadic [of 1 "- 2"] is_double_of_int [of 90]
    is_double_dyadic [of 4503599627370495 "- 52"]
  by (simp_all add: is_double_def emin_def)

lemma fl_rounds_up:
  "fl (67553994410557425 / 4503599627370496) = 4222124650659839 / 281474976710656"
  "fl (23221685578629119 / 281474976710656) = 165 / 2"
proof -
  have "fl (67553994410557425 / 4503599627370496) =
          of_int (round_even (67553994410557425 / 4503599627370496 / 2 powi (3 - 52))) * 2 powi (3 - 52)"
    by (rule fl_eval) (simp_all add: emin_def emax_def)
  also have "\<dots> = 4222124650659839 / 281474976710656" by (simp add: round_even_def)
  finally show "fl (67553994410557425 / 4503599627370496) = 4222124650659839 / 281474976710656" .
  have "fl (23221685578629119 / 281474976710656) =
          of_int (round_even (23221685578629119 / 281474976710656 / 2 powi (6 - 52))) * 2 powi (6 - 52)"
    by (rule fl_eval) (simp_all add: emin_def emax_def)
  also have "\<dots> = 165 / 2" by (simp add: round_even_def)
  finally show "fl (23221685578629119 / 281474976710656) = 165 / 2" .
qed

lemma validate_True: "validateTrimTimes st = (True, st1) \<Longrightarrow> st1 = st"
  using validate_passed [of st] by simp

lemma click_running:
  assumes "downloadBtn_click st = (st0, Some p)"
  shows "running (length (timers st)) st0" "progressFill st0 = 0"
    "progressText st0 = phase_label PREPARING"
proof -
  obtain fmt where fmt: "selectedFormat st = Some fmt"
    using assms by (cases "selectedFormat st") (simp_all add: downloadBtn_click_def)
  have v: "validateTrimTimes st = (True, st)"
  proof (cases "validateTrimTimes st")
    case (Pair ok st1)
    then have "ok" using assms fmt by (cases ok) (simp_all add: downloadBtn_click_def)
    then show ?thesis using Pair validate_True [of st st1] by simp
  qed
  have st0: "st0 = setInterval (showDownloadProgress st)"
    using assms fmt v by (simp add: downloadBtn_click_def Let_def)
  show "running (length (timers st)) st0" "progressFill st0 = 0"
    "progressText st0 = phase_label PREPARING"
    by (simp_all add: st0 running_def setInterval_def showDownloadProgress_def
        updateProgressBar_def nth_append is_double_def)
qed

lemma tick_running:
  assumes "running k st" "is_double r" "0 \<le> r" "r < 1"
  shows "running k (tick k r st)"
    and "progressFill (tick k r st) = min (fl (progressFill st + fl (r * 15))) 90"
    and "progressFill st \<le> progressFill (tick k r st)"
    and "0 \<le> fl (r * 15)" and "fl (r * 15) < 15"
proof -
  let ?p = "progress (timers st ! k)"
  let ?q = "fl (?p + fl (r * 15))"
  have run: "k < length (timers st)" "active (timers st ! k)" "progressFill st = ?p"
    "fl ?p = ?p" "0 \<le> ?p" "?p \<le> 90"
    using assms(1) by (simp_all add: running_def is_double_def)
  show inc: "0 \<le> fl (r * 15)" "fl (r * 15) < 15" using increment_range [OF assms(2-4)] by simp_all
  have "fl ?p \<le> ?q" using run(5) inc(1) by (intro fl_mono) simp_all
  then have le: "?p \<le> ?q" by (simp add: run(4))
  have "?p + fl (r * 15) < 2 powi (emax + 1)"
  proof -
    have "?p + fl (r * 15) < 105" using run(6) inc(2) by simp
    also have "(105::real) \<le> 2 powi (emax + 1)" by (simp add: emax_def)
    finally show ?thesis .
  qed
  then have dq: "is_double ?q" using run(5) inc(1) by (intro is_double_fl) simp_all
  have t: "tick k r st = progress_callback k r st" using run(1,2) by (simp add: tick_def)
  have fill: "progressFill (tick k r st) = (if ?q > 90 then 90 else ?q)"
    and prog: "progress (timers (tick k r st) ! k) = (if ?q > 90 then 90 else ?q)"
    and len: "length (timers (tick k r st)) = length (timers st)"
    and act: "active (timers (tick k r st) ! k)"
    using run(1,2) by (simp_all add: t progress_callback_def updateProgressBar_def Let_def)
  show "progressFill (tick k r st) = min (fl (progressFill st + fl (r * 15))) 90"
    by (simp add: fill run(3) min_def)
  show "progressFill st \<le> progressFill (tick k r st)"
    using le run(6) by (simp add: fill run(3))
  show "running k (tick k r st)"
    unfolding running_def using le run(1,5,6) dq is_double_examples(4) act
    by (simp add: fill prog len)
qed

lemma ticks_running:
  assumes "running k st" "\<forall>r \<in> set rs. is_double r \<and> 0 \<le> r \<and> r < 1"
  shows "\<forall>s \<in> set (ticks k rs st). running k s"
  using assms
proof (induction rs arbitrary: st)
  case Nil
  then show ?case by simp
next
  case (Cons r rs)
  then have "running k (tick k r st)" by (simp add: tick_running)
  with Cons show ?case by simp
qed

lemma ticks_steps:
  assumes "running k st" "\<forall>r \<in> set rs. is_double r \<and> 0 \<le> r \<and> r < 1" "i < length rs"
  shows "progressFill ((st # ticks k rs st) ! Suc i) =
           min (fl (progressFill ((st # ticks k rs st) ! i) + fl (rs ! i * 15))) 90 \<and>
         0 \<le> fl (rs ! i * 15) \<and> fl (rs ! i * 15) < 15 \<and>
         progressFill ((st # ticks k rs st) ! i) \<le> progressFill ((st # ticks k rs st) ! Suc i)"
  using assms
proof (induction rs arbitrary: st i)
  case Nil
  then show ?case by simp
next
  case (Cons r rs)
  have r: "is_double r" "0 \<le> r" "r < 1" using Cons.prems(2) by simp_all
  show ?case
  proof (cases i)
    case 0
    then show ?thesis using tick_running [OF Cons.prems(1) r] by simp
  next
    case (Suc j)
    have "running k (tick k r st)" using tick_running(1) [OF Cons.prems(1) r] .
    moreover have "\<forall>r \<in> set rs. is_double r \<and> 0 \<le> r \<and> r < 1" using Cons.prems(2) by simp
    moreover have "j < length rs" using Cons.prems(3) Suc by simp
    ultimately have ih:
      "progressFill ((tick k r st # ticks k rs (tick k r st)) ! Suc j) =
         min (fl (progressFill ((tick k r st # ticks k rs (tick k r st)) ! j) + fl (rs ! j * 15))) 90 \<and>
       0 \<le> fl (rs ! j * 15) \<and> fl (rs ! j * 15) < 15 \<and>
       progressFill ((tick k r st # ticks k rs (tick k r st)) ! j)
         \<le> progressFill ((tick k r st # ticks k rs (tick k r st)) ! Suc j)"
      by (rule Cons.IH)
    show ?thesis using ih unfolding Suc ticks.simps nth_Cons_Suc .
  qed
qed

lemma ticks_sorted:
  assumes "running k st" "\<forall>r \<in> set rs. is_double r \<and> 0 \<le> r \<and> r < 1"
  shows "sorted (map progressFill (st # ticks k rs st))"
  using assms
proof (induction rs arbitrary: st)
  case Nil
  then show ?case by simp
next
  case (Cons r rs)
  have r: "is_double r" "0 \<le> r" "r < 1" using Cons.prems(2) by simp_all
  have run: "running k (tick k r st)" using tick_running(1) [OF Cons.prems(1) r] .
  have le: "progressFill st \<le> progressFill (tick k r st)"
    using tick_running(3) [OF Cons.prems(1) r] .
  have "sorted (map progressFill (tick k r st # ticks k rs (tick k r st)))"
    using Cons.IH [OF run] Cons.prems(2) by simp
  then show ?case using le by auto
qed

text \<open>
  C5. From the click that starts a download, and for every sequence of events of the timer
  of that click, each with a random double \<open>r\<close> in \<open>[0, 1)\<close>: the increment drawn, the
  double product of \<open>r\<close> and 15, is at least 0 and less than 15; every event moves the
  percentage shown from \<open>x\<close> to the double sum of \<open>x\<close> and the increment, or to 90 if the sum
  is larger; the percentages shown never decrease and never exceed 90.
\<close>

theorem ticks_nondecreasing_bounded:
  assumes "downloadBtn_click st = (st0, Some p)"
    and "\<forall>r \<in> set rs. is_double r \<and> 0 \<le> r \<and> r < 1"
  shows "(\<forall>i < length rs.
            progressFill ((st0 # ticks (length (timers st)) rs st0) ! Suc i) =
              min (fl (progressFill ((st0 # ticks (length (timers st)) rs st0) ! i) +
                       fl (rs ! i * 15))) 90 \<and>
            0 \<le> fl (rs ! i * 15) \<and> fl (rs ! i * 15) < 15 \<and>
            progressFill ((st0 # ticks (length (timers st)) rs st0) ! i)
              \<le> progressFill ((st0 # ticks (length (timers st)) rs st0) ! Suc i)) \<and>
         sorted (map progressFill (st0 # ticks (length (timers st)) rs st0)) \<and>
         (\<forall>s \<in> set (st0 # ticks (length (timers st)) rs st0).
            0 \<le> progressFill s \<and> progressFill s \<le> 90)"
proof -
  have run: "running (length (timers st)) st0" using click_running(1) [OF assms(1)] .
  have "\<forall>s \<in> set (st0 # ticks (length (timers st)) rs st0). running (length (timers st)) s"
    using run ticks_running [OF run assms(2)] by simp
  then have "\<forall>s \<in> set (st0 # ticks (length (timers st)) rs st0).
      0 \<le> progressFill s \<and> progressFill s \<le> 90"
    by (simp add: running_def)
  then show ?thesis
    using ticks_steps [OF run assms(2)] ticks_sorted [OF run assms(2)] by blast
qed

lemma click_example:
  "downloadBtn_click ((trim_state ''0:10'' ''0:35'' None)\<lparr>selectedFormat := Some \<lparr>format_id = ''22''\<rparr>\<rparr>) =
     (fst (downloadBtn_click ((trim_state ''0:10'' ''0:35'' None)\<lparr>selectedFormat := Some \<lparr>format_id = ''22''\<rparr>\<rparr>)),
      Some (downloadVideo_payload [] ''22'' (Some [Some 10, Some 35])))"
  "length (timers ((trim_state ''0:10'' ''0:35'' None)\<lparr>selectedFormat := Some \<lparr>format_id = ''22''\<rparr>\<rparr>)) = 0"
  by (simp_all add: downloadBtn_click_def validateTrimTimes_def check_duration_def trim_state_def
      initial_state_def parse_examples showDownloadProgress_def updateProgressBar_def
      setInterval_def trim_def Let_def)

theorem ticks_nondecreasing_bounded_witness:
  "sorted (map progressFill
     (fst (downloadBtn_click ((trim_state ''0:10'' ''0:35'' None)\<lparr>selectedFormat := Some \<lparr>format_id = ''22''\<rparr>\<rparr>)) #
      ticks 0 [1 / 2, 1 / 4, 0]
        (fst (downloadBtn_click ((trim_state ''0:10'' ''0:35'' None)\<lparr>selectedFormat := Some \<lparr>format_id = ''22''\<rparr>\<rparr>))))) \<and>
   progressFill (last (ticks 0 [1 / 2, 1 / 4, 0]
        (fst (downloadBtn_click ((trim_state ''0:10'' ''0:35'' None)\<lparr>selectedFormat := Some \<lparr>format_id = ''22''\<rparr>\<rparr>))))) \<le> 90"
proof -
  let ?st = "(trim_state ''0:10'' ''0:35'' None)\<lparr>selectedFormat := Some \<lparr>format_id = ''22''\<rparr>\<rparr>"
  let ?st0 = "fst (downloadBtn_click ?st)"
  let ?rs = "[1 / 2, 1 / 4, 0] :: real list"
  have rs: "\<forall>r \<in> set ?rs. is_double r \<and> 0 \<le> r \<and> r < 1" by (simp add: is_double_examples)
  have "last (ticks 0 ?rs ?st0) \<in> set (?st0 # ticks 0 ?rs ?st0)" by simp
  then show ?thesis
    using ticks_nondecreasing_bounded [OF click_example(1) rs] by (simp only: click_example(2))
qed

text \<open>
  Nine events with the random number \<open>1 / 2\<close> bring the percentage to 67.5. The random
  number \<open>1 - 2^-52\<close>, the double just below 1 that is written \<^verbatim>\<open>0.9999999999999998\<close>,
  then draws an increment below 15, and the sum rounds to 82.5: the percentage has grown
  by 15.
\<close>

theorem ticks_nondecreasing_bounded_counterexample:
  "is_double (4503599627370495 / 4503599627370496) \<and>
   (0::real) \<le> 4503599627370495 / 4503599627370496 \<and>
   (4503599627370495 / 4503599627370496 :: real) < 1 \<and>
   map progressFill
     (ticks 0 [1 / 2, 1 / 2, 1 / 2, 1 / 2, 1 / 2, 1 / 2, 1 / 2, 1 / 2, 1 / 2,
               4503599627370495 / 4503599627370496]
        (fst (downloadBtn_click (initial_state\<lparr>selectedFormat := Some \<lparr>format_id = ''22''\<rparr>\<rparr>)))) =
     [15 / 2, 15, 45 / 2, 30, 75 / 2, 45, 105 / 2, 60, 135 / 2, 165 / 2] \<and>
   \<not> (165 / 2 - 135 / 2 < (15::real))"
  by (simp add: is_double_examples tick_def progress_callback_def updateProgressBar_def
      downloadBtn_click_def validateTrimTimes_def initial_state_def showDownloadProgress_def
      setInterval_def Let_def fl_examples fl_rounds_up)

text \<open>
  C6. A first download fails, and its timer is left running: the \<^verbatim>\<open>catch\<close> branch does
  not clear it, as the branch of a resolved download does. A second click starts a
  download that completes: the bar shows 100 and the label of the COMPLETE phase, and the
  timer of the second click is cleared. The timer of the first click is still active, and
  its next event puts the bar back to 45 with the label of DOWNLOADING.
\<close>

theorem stale_timer_after_complete:
  "length (timers retry_page) = 2 \<and>
   progressFill (complete 1 retry_page) = 100 \<and>
   progressText (complete 1 retry_page) = phase_label COMPLETE \<and>
   \<not> active (timers (complete 1 retry_page) ! 1) \<and>
   active (timers (complete 1 retry_page) ! 0) \<and>
   progressFill (tick 0 (1 / 2) (complete 1 retry_page)) = 45 \<and>
   progressText (tick 0 (1 / 2) (complete 1 retry_page)) = phase_label DOWNLOADING \<and>
   tick 0 (1 / 2) (complete 1 retry_page) \<noteq> complete 1 retry_page"
proof -
  have failed: "failed_run =
     initial_state\<lparr>selectedFormat := Some \<lparr>format_id = ''22''\<rparr>,
       errorMessage := ''Download failed: Failed to fetch'', errorModalHidden := True,
       downloadBtnDisabled := False, downloadProgressHidden := True,
       progressFill := 30, progressText := ''Downloading...'', progressPercentage := 30,
       timers := [\<lparr>progress = 30, active = True\<rparr>]\<rparr>"
    by (simp add: failed_run_def downloadBtn_click_def validateTrimTimes_def initial_state_def
        showDownloadProgress_def hideDownloadProgress_def download_failed_def showError_def
        hideError_def setInterval_def tick_def progress_callback_def updateProgressBar_def
        statusText_def Math_round_def Let_def fl_examples)
  have page: "retry_page =
     initial_state\<lparr>selectedFormat := Some \<lparr>format_id = ''22''\<rparr>,
       errorMessage := ''Download failed: Failed to fetch'', errorModalHidden := True,
       downloadBtnDisabled := True, downloadProgressHidden := False,
       progressFill := 15 / 2, progressText := ''Downloading...'', progressPercentage := 8,
       timers := [\<lparr>progress = 75 / 2, active = True\<rparr>, \<lparr>progress = 15 / 2, active = True\<rparr>]\<rparr>"
    by (simp add: retry_page_def failed downloadBtn_click_def validateTrimTimes_def
        initial_state_def showDownloadProgress_def setInterval_def tick_def
        progress_callback_def updateProgressBar_def statusText_def Math_round_def Let_def
        fl_examples)
  have fill: "progressFill (tick 0 (1 / 2) (complete 1 retry_page)) = 45"
    by (simp add: page complete_def clearInterval_def tick_def progress_callback_def
        updateProgressBar_def initial_state_def Let_def fl_examples)
  have rest: "length (timers retry_page) = 2"
    "progressFill (complete 1 retry_page) = 100"
    "progressText (complete 1 retry_page) = phase_label COMPLETE"
    "\<not> active (timers (complete 1 retry_page) ! 1)"
    "active (timers (complete 1 retry_page) ! 0)"
    "progressText (tick 0 (1 / 2) (complete 1 retry_page)) = phase_label DOWNLOADING"
    by (simp_all add: page complete_def clearInterval_def tick_def progress_callback_def
        updateProgressBar_def statusText_def initial_state_def Let_def fl_examples)
  have "progressFill (tick 0 (1 / 2) (complete 1 retry_page)) \<noteq> progressFill (complete 1 retry_page)"
    unfolding fill rest(2) by simp
  then have "tick 0 (1 / 2) (complete 1 retry_page) \<noteq> complete 1 retry_page" by auto
  with fill rest show ?thesis by blast
qed

text \<open>
  What the completed run itself does is as stated: its own timer is cleared, so that an
  event of it changes nothing, and completing twice is completing once.
\<close>

lemma complete_own_timer:
  "progressFill (complete k st) = 100" "progressPercentage (complete k st) = 100"
  "progressText (complete k st) = phase_label COMPLETE"
  "tick k r (complete k st) = complete k st"
  "complete k (complete k st) = complete k st"
proof -
  show "progressFill (complete k st) = 100" "progressPercentage (complete k st) = 100"
    "progressText (complete k st) = phase_label COMPLETE"
    by (simp_all add: complete_def updateProgressBar_def Math_round_def)
  show "tick k r (complete k st) = complete k st"
    by (simp add: tick_def complete_def clearInterval_def updateProgressBar_def)
  show "complete k (complete k st) = complete k st"
    by (simp add: complete_def clearInterval_def updateProgressBar_def)
qed

text \<open>
  C7. The label is a function of the percentage and of the trimming flag only. Up to and
  including 30 it is that of DOWNLOADING; above 30 and up to 60, with trimming enabled,
  that of PROCESSING; above 60, so up to the ceiling 90 included, with trimming enabled,
  that of TRIMMING; with trimming disabled it is that of DOWNLOADING at every percentage.
  Each timer event, and each run of a callback, shows the label of the percentage it
  shows.
\<close>

theorem statusText_bands:
  "(p \<le> 30 \<longrightarrow> statusText p trimming = phase_label DOWNLOADING) \<and>
   (30 < p \<and> p \<le> 60 \<and> trimming \<longrightarrow> statusText p trimming = phase_label PROCESSING) \<and>
   (60 < p \<and> trimming \<longrightarrow> statusText p trimming = phase_label TRIMMING) \<and>
   (\<not> trimming \<longrightarrow> statusText p trimming = phase_label DOWNLOADING) \<and>
   (k < length (timers st) \<and> active (timers st ! k) \<longrightarrow>
      progressText (tick k r st) = statusText (progressFill (tick k r st)) (isTrimmingEnabled st)) \<and>
   progressText (progress_callback k r st) =
     statusText (progressFill (progress_callback k r st)) (isTrimmingEnabled st)"
  by (auto simp: statusText_def tick_def progress_callback_def updateProgressBar_def Let_def)

theorem statusText_bands_witness:
  "statusText 30 True = phase_label DOWNLOADING \<and> statusText 45 True = phase_label PROCESSING \<and>
   statusText 60 True = phase_label PROCESSING \<and> statusText 90 True = phase_label TRIMMING \<and>
   statusText 90 False = phase_label DOWNLOADING \<and>
   progressText (tick 0 (1 / 2) (setInterval initial_state)) =
     statusText (progressFill (tick 0 (1 / 2) (setInterval initial_state))) False"
  using statusText_bands [of 30 True 0 "setInterval initial_state" "1 / 2"]
    statusText_bands [of 45 True 0 "setInterval initial_state" "1 / 2"]
    statusText_bands [of 60 True 0 "setInterval initial_state" "1 / 2"]
    statusText_bands [of 90 True 0 "setInterval initial_state" "1 / 2"]
    statusText_bands [of 90 False 0 "setInterval initial_state" "1 / 2"]
  by (simp add: initial_state_def setInterval_def)

theorem statusText_bands_counterexample:
  "statusText 30 True \<noteq> phase_label PROCESSING \<and> statusText 60 True \<noteq> phase_label TRIMMING \<and>
   map (\<lambda>s. (progressFill s, progressText s))
     (ticks 0 [1 / 2, 1 / 2, 1 / 2, 1 / 2]
        (fst (downloadBtn_click
           ((trim_state ''0:10'' ''0:35'' None)\<lparr>selectedFormat := Some \<lparr>format_id = ''22''\<rparr>\<rparr>)))) =
     [(15 / 2, ''Downloading...''), (15, ''Downloading...''), (45 / 2, ''Downloading...''),
      (30, ''Downloading...'')]"
  by (simp add: statusText_def tick_def progress_callback_def updateProgressBar_def
      downloadBtn_click_def validateTrimTimes_def check_duration_def trim_state_def
      initial_state_def parse_examples showDownloadProgress_def setInterval_def Let_def
      fl_examples)

end
